theory Spec2Isabelle
  imports Main "HOL-Library.Sublist"
begin

section \<open>Effects: errors, the driver, and the log of driver calls\<close>

text \<open>
  The page objects are asynchronous TypeScript methods over the Playwright driver. An
  \<^verbatim>\<open>async\<close> method is modelled as a function from the world before the call to
  its outcome and the world after it; a rejected promise (a thrown error) is \<open>Inl\<close>, a
  fulfilled one is \<open>Inr\<close>. JavaScript numbers are modelled as unbounded integers.
\<close>

datatype js_error = Error string | TimeoutError string | SyntaxError string

text \<open>
  Locators are descriptions, built by \<^verbatim>\<open>page.locator(sel)\<close>,
  \<^verbatim>\<open>page.getByRole(role, { name })\<close>, \<^verbatim>\<open>a.locator(b)\<close>,
  \<^verbatim>\<open>a.or(b)\<close>, \<^verbatim>\<open>a.first()\<close> and \<^verbatim>\<open>a.nth(i)\<close>.
\<close>

datatype locator =
    Locator string
  | GetByRole string string
  | Chain locator locator
  | OrElse locator locator
  | First locator
  | Nth locator nat

datatype wait_state = Visible | Hidden

text \<open>The driver operations the modelled methods invoke, and the values they give back.\<close>

datatype call =
    WaitFor locator wait_state "nat option"
  | Click locator
  | Fill locator string
  | Hover locator
  | SelectOption locator string
  | SetInputFiles locator "string list"
  | Count locator
  | IsChecked locator
  | GetAttribute locator string
  | Condition
  | SetTimeout int

datatype val = VUnit | VBool bool | VNum nat | VAttr "string option"

type_synonym event = "call \<times> (js_error + val)"

text \<open>
  The world is the state of the browser and of the clock (the type \<open>'w\<close>, about which
  nothing is assumed) together with the log of the driver calls made so far and what each
  returned. The log is what makes "first waits, then acts" and "makes no further attempt"
  statable.
\<close>

type_synonym 'w world = "event list \<times> 'w"

type_synonym ('w, 'a) io = "'w world \<Rightarrow> (js_error + 'a) \<times> 'w world"

text \<open>
  The driver is external to the repository: each of its operations is a parameter, free to
  fail and to change the browser.
\<close>

record 'w driver =
  waitFor_op :: "locator \<Rightarrow> wait_state \<Rightarrow> nat option \<Rightarrow> 'w \<Rightarrow> (js_error + unit) \<times> 'w"
  click_op :: "locator \<Rightarrow> 'w \<Rightarrow> (js_error + unit) \<times> 'w"
  fill_op :: "locator \<Rightarrow> string \<Rightarrow> 'w \<Rightarrow> (js_error + unit) \<times> 'w"
  hover_op :: "locator \<Rightarrow> 'w \<Rightarrow> (js_error + unit) \<times> 'w"
  selectOption_op :: "locator \<Rightarrow> string \<Rightarrow> 'w \<Rightarrow> (js_error + unit) \<times> 'w"
  setInputFiles_op :: "locator \<Rightarrow> string list \<Rightarrow> 'w \<Rightarrow> (js_error + unit) \<times> 'w"
  count_op :: "locator \<Rightarrow> 'w \<Rightarrow> (js_error + nat) \<times> 'w"
  isChecked_op :: "locator \<Rightarrow> 'w \<Rightarrow> (js_error + bool) \<times> 'w"
  getAttribute_op :: "locator \<Rightarrow> string \<Rightarrow> 'w \<Rightarrow> (js_error + string option) \<times> 'w"
  setTimeout_op :: "int \<Rightarrow> 'w \<Rightarrow> 'w"

definition perform :: "call \<Rightarrow> ('a \<Rightarrow> val) \<Rightarrow> ('w \<Rightarrow> (js_error + 'a) \<times> 'w) \<Rightarrow> ('w, 'a) io" where
  "perform c to_val f s =
     (case s of (lg, w) \<Rightarrow>
        (case f w of (r, w') \<Rightarrow> (r, (lg @ [(c, map_sum id to_val r)], w'))))"

definition resolve :: "'a \<Rightarrow> ('w, 'a) io" where
  "resolve x s = (Inr x, s)"

definition await :: "('w, 'a) io \<Rightarrow> ('a \<Rightarrow> ('w, 'b) io) \<Rightarrow> ('w, 'b) io" where
  "await m k s = (case m s of (Inl e, s') \<Rightarrow> (Inl e, s') | (Inr x, s') \<Rightarrow> k x s')"

definition try_catch :: "('w, 'a) io \<Rightarrow> (js_error \<Rightarrow> ('w, 'a) io) \<Rightarrow> ('w, 'a) io" where
  "try_catch m h s = (case m s of (Inl e, s') \<Rightarrow> h e s' | (Inr x, s') \<Rightarrow> (Inr x, s'))"

definition unit_val :: "unit \<Rightarrow> val" where
  "unit_val u = VUnit"

definition locator_waitFor :: "'w driver \<Rightarrow> locator \<Rightarrow> wait_state \<Rightarrow> nat option \<Rightarrow> ('w, unit) io" where
  "locator_waitFor drv l st t = perform (WaitFor l st t) unit_val (waitFor_op drv l st t)"

definition locator_click :: "'w driver \<Rightarrow> locator \<Rightarrow> ('w, unit) io" where
  "locator_click drv l = perform (Click l) unit_val (click_op drv l)"

definition locator_fill :: "'w driver \<Rightarrow> locator \<Rightarrow> string \<Rightarrow> ('w, unit) io" where
  "locator_fill drv l v = perform (Fill l v) unit_val (fill_op drv l v)"

definition locator_hover :: "'w driver \<Rightarrow> locator \<Rightarrow> ('w, unit) io" where
  "locator_hover drv l = perform (Hover l) unit_val (hover_op drv l)"

definition locator_selectOption :: "'w driver \<Rightarrow> locator \<Rightarrow> string \<Rightarrow> ('w, unit) io" where
  "locator_selectOption drv l v = perform (SelectOption l v) unit_val (selectOption_op drv l v)"

definition locator_setInputFiles :: "'w driver \<Rightarrow> locator \<Rightarrow> string list \<Rightarrow> ('w, unit) io" where
  "locator_setInputFiles drv l fs = perform (SetInputFiles l fs) unit_val (setInputFiles_op drv l fs)"

definition locator_count :: "'w driver \<Rightarrow> locator \<Rightarrow> ('w, nat) io" where
  "locator_count drv l = perform (Count l) VNum (count_op drv l)"

definition locator_isChecked :: "'w driver \<Rightarrow> locator \<Rightarrow> ('w, bool) io" where
  "locator_isChecked drv l = perform (IsChecked l) VBool (isChecked_op drv l)"

definition locator_getAttribute :: "'w driver \<Rightarrow> locator \<Rightarrow> string \<Rightarrow> ('w, string option) io" where
  "locator_getAttribute drv l a = perform (GetAttribute l a) VAttr (getAttribute_op drv l a)"

definition sleep :: "'w driver \<Rightarrow> int \<Rightarrow> ('w, unit) io" where
  "sleep drv delay = perform (SetTimeout delay) unit_val (\<lambda>w. (Inr (), setTimeout_op drv delay w))"

section \<open>BasePage\<close>

text \<open>\<^verbatim>\<open>await locator.waitFor({ state: 'visible' }); await locator.click();\<close>\<close>

definition click :: "'w driver \<Rightarrow> locator \<Rightarrow> ('w, unit) io" where
  "click drv locator =
     await (locator_waitFor drv locator Visible None) (\<lambda>_. locator_click drv locator)"

definition fill :: "'w driver \<Rightarrow> locator \<Rightarrow> string \<Rightarrow> ('w, unit) io" where
  "fill drv locator v =
     await (locator_waitFor drv locator Visible None) (\<lambda>_. locator_fill drv locator v)"

definition waitForVisible :: "'w driver \<Rightarrow> locator \<Rightarrow> nat option \<Rightarrow> ('w, unit) io" where
  "waitForVisible drv locator timeout = locator_waitFor drv locator Visible timeout"

definition waitForHidden :: "'w driver \<Rightarrow> locator \<Rightarrow> nat option \<Rightarrow> ('w, unit) io" where
  "waitForHidden drv locator timeout = locator_waitFor drv locator Hidden timeout"

text \<open>
  \<^verbatim>\<open>try { await locator.waitFor({ state: 'visible', timeout: 5000 }); return true; }
  catch { return false; }\<close>
\<close>

definition isVisible :: "'w driver \<Rightarrow> locator \<Rightarrow> ('w, bool) io" where
  "isVisible drv locator =
     try_catch
       (await (locator_waitFor drv locator Visible (Some 5000)) (\<lambda>_. resolve True))
       (\<lambda>_. resolve False)"

definition selectOption :: "'w driver \<Rightarrow> locator \<Rightarrow> string \<Rightarrow> ('w, unit) io" where
  "selectOption drv locator v =
     await (locator_waitFor drv locator Visible None) (\<lambda>_. locator_selectOption drv locator v)"

definition hover :: "'w driver \<Rightarrow> locator \<Rightarrow> ('w, unit) io" where
  "hover drv locator =
     await (locator_waitFor drv locator Visible None) (\<lambda>_. locator_hover drv locator)"

section \<open>WaitHelper\<close>

text \<open>The decimal text of a number, as a template literal prints an integer.\<close>

function show_nat :: "nat \<Rightarrow> string" where
  "show_nat n =
     (if n < 10 then [''0123456789'' ! n]
      else show_nat (n div 10) @ [''0123456789'' ! (n mod 10)])"
  by pat_completeness auto
termination
  by (relation "measure id") auto

declare show_nat.simps [simp del]

definition show_int :: "int \<Rightarrow> string" where
  "show_int i = (if i < 0 then CHR ''-'' # show_nat (nat (- i)) else show_nat (nat i))"

text \<open>
  The message of the exhaustion error: the Spanish sentence "La condicion no se cumplio
  despues de N intentos" with its accented letters, written as their UTF-8 bytes, and N the
  value of \<open>maxAttempts\<close>.
\<close>

definition exhausted_message :: "int \<Rightarrow> string" where
  "exhausted_message maxAttempts =
     ''La condici'' @ [CHR 0xC3, CHR 0xB3] @ ''n no se cumpli'' @ [CHR 0xC3, CHR 0xB3]
       @ '' despu'' @ [CHR 0xC3, CHR 0xA9] @ ''s de '' @ show_int maxAttempts @ '' intentos''"

text \<open>
  \<^verbatim>\<open>let attempt = 0;
  while (attempt < maxAttempts) {
    if (await condition()) { return; }
    const delay = baseDelay * Math.pow(2, attempt);
    await new Promise(resolve => setTimeout(resolve, delay));
    attempt++;
  }
  throw new Error(...);\<close>
  The condition is the caller's asynchronous function: it may fail, and it may change the
  world. The loop is the recursion on \<open>attempt\<close>.
\<close>

function waitWithBackoff_loop ::
  "'w driver \<Rightarrow> ('w \<Rightarrow> (js_error + bool) \<times> 'w) \<Rightarrow> int \<Rightarrow> int \<Rightarrow> nat \<Rightarrow> ('w, unit) io" where
  "waitWithBackoff_loop drv condition maxAttempts baseDelay attempt s =
     (if int attempt < maxAttempts then
        (case perform Condition VBool condition s of
           (Inl e, s1) \<Rightarrow> (Inl e, s1)
         | (Inr True, s1) \<Rightarrow> (Inr (), s1)
         | (Inr False, s1) \<Rightarrow>
             (case sleep drv (baseDelay * 2 ^ attempt) s1 of
                (r, s2) \<Rightarrow>
                  waitWithBackoff_loop drv condition maxAttempts baseDelay (attempt + 1) s2))
      else (Inl (Error (exhausted_message maxAttempts)), s))"
  by pat_completeness auto
termination
  by (relation "measure (\<lambda>(drv, condition, maxAttempts, baseDelay, attempt, s).
        nat (maxAttempts - int attempt))") auto

declare waitWithBackoff_loop.simps [simp del]

text \<open>A caller that omits the last two arguments gets 10 attempts and a base delay of 1000 ms.\<close>

definition waitWithBackoff ::
  "'w driver \<Rightarrow> ('w \<Rightarrow> (js_error + bool) \<times> 'w) \<Rightarrow> int \<Rightarrow> int \<Rightarrow> ('w, unit) io" where
  "waitWithBackoff drv condition maxAttempts baseDelay =
     waitWithBackoff_loop drv condition maxAttempts baseDelay 0"

subsection \<open>Reading a log\<close>

text \<open>How many times the condition was evaluated.\<close>

definition condition_calls :: "event list \<Rightarrow> nat" where
  "condition_calls lg = length (filter (\<lambda>ev. fst ev = Condition) lg)"

text \<open>
  The delay slept immediately before evaluation number \<open>i\<close> (counted from 0) of the
  condition; \<open>None\<close> when nothing was slept there or there is no such evaluation.
\<close>

fun delay_before_from :: "int option \<Rightarrow> event list \<Rightarrow> nat \<Rightarrow> int option" where
  "delay_before_from prev [] i = None"
| "delay_before_from prev (ev # evs) i =
     (case fst ev of
        Condition \<Rightarrow> (case i of 0 \<Rightarrow> prev | Suc j \<Rightarrow> delay_before_from None evs j)
      | SetTimeout d \<Rightarrow> delay_before_from (Some d) evs i
      | _ \<Rightarrow> delay_before_from None evs i)"

definition delay_before :: "event list \<Rightarrow> nat \<Rightarrow> int option" where
  "delay_before lg i = delay_before_from None lg i"

text \<open>
  The events of a failed attempt number \<open>i\<close> (counted from 0): the condition yields false,
  then the helper sleeps \<open>baseDelay * 2 ^ i\<close>.
\<close>

definition failed_attempt :: "int \<Rightarrow> nat \<Rightarrow> event list" where
  "failed_attempt baseDelay i =
     [(Condition, Inr (VBool False)), (SetTimeout (baseDelay * 2 ^ i), Inr VUnit)]"

definition failed_attempts :: "int \<Rightarrow> nat \<Rightarrow> nat \<Rightarrow> event list" where
  "failed_attempts baseDelay i k = concat (map (failed_attempt baseDelay) [i..<i + k])"

text \<open>
  The delay before every evaluation number \<open>i\<close> of the condition recorded in a log is
  \<open>baseDelay * 2 ^ i\<close>.
\<close>

definition delays_before_attempts :: "int \<Rightarrow> event list \<Rightarrow> bool" where
  "delays_before_attempts baseDelay lg =
     list_all (\<lambda>i. delay_before lg i = Some (baseDelay * 2 ^ i)) [0..<condition_calls lg]"

section \<open>ContentPage\<close>

text \<open>The locators of the constructor that the modelled methods use.\<close>

definition addButton :: locator where
  "addButton = Chain (Locator ''#mainFab'') (Locator ''#paperFab'')"

definition uploadFilesButton :: locator where
  "uploadFilesButton = GetByRole ''button'' ''Subir Archivo''"

definition fileInput :: locator where
  "fileInput =
     OrElse (Locator ''#fileupload #fileInput'')
            (First (Locator (''input[type='' @ [CHR 0x22] @ ''file'' @ [CHR 0x22] @ '']'')))"

text \<open>The name of the grid option is "Grilla Pequena" with n-tilde, as UTF-8 bytes.\<close>

definition gridViewButton :: locator where
  "gridViewButton = GetByRole ''option'' (''Grilla Peque'' @ [CHR 0xC3, CHR 0xB1] @ ''a'')"

definition listViewButton :: locator where
  "listViewButton = GetByRole ''option'' ''Lista Detallada''"

definition cardViewButton :: locator where
  "cardViewButton = GetByRole ''option'' ''Tarjetas Grandes''"

text \<open>
  \<^verbatim>\<open>await this.click(this.addButton);
  await this.click(this.uploadFilesButton);
  await this.fileInput.setInputFiles(filePaths);
  await this.waitForVisible(this.page.locator('div:nth-child(1) > .horizontal > .file-status-icon > .success'));
  await this.waitForVisible(this.page.locator('div:nth-child(2) > .horizontal > .file-status-icon > .success'));\<close>
\<close>

definition uploadMultipleFiles :: "'w driver \<Rightarrow> string list \<Rightarrow> ('w, unit) io" where
  "uploadMultipleFiles drv filePaths =
     await (click drv addButton) (\<lambda>_.
     await (click drv uploadFilesButton) (\<lambda>_.
     await (locator_setInputFiles drv fileInput filePaths) (\<lambda>_.
     await (waitForVisible drv
              (Locator ''div:nth-child(1) > .horizontal > .file-status-icon > .success'') None) (\<lambda>_.
     waitForVisible drv
       (Locator ''div:nth-child(2) > .horizontal > .file-status-icon > .success'') None))))"

definition uploadByDragAndDrop :: "'w driver \<Rightarrow> string list \<Rightarrow> ('w, unit) io" where
  "uploadByDragAndDrop drv filePaths =
     await (locator_setInputFiles drv fileInput filePaths) (\<lambda>_.
     await (waitForVisible drv
              (Locator ''div:nth-child(1) > .horizontal > .file-status-icon > .success'') None) (\<lambda>_.
     waitForVisible drv
       (Locator ''div:nth-child(2) > .horizontal > .file-status-icon > .success'') None))"

text \<open>
  \<^verbatim>\<open>const checkboxes = this.page.locator('.media-card paper-checkbox[role="checkbox"]');
  const count = await checkboxes.count();
  if (count === 0) return false;
  for (let i = 0; i < count; i++) {
    if (!await checkboxes.nth(i).isChecked()) return false;
  }
  return true;\<close>
\<close>

definition item_checkboxes :: locator where
  "item_checkboxes =
     Locator (''.media-card paper-checkbox[role='' @ [CHR 0x22] @ ''checkbox'' @ [CHR 0x22] @ '']'')"

function areAllItemsChecked_loop :: "'w driver \<Rightarrow> locator \<Rightarrow> nat \<Rightarrow> nat \<Rightarrow> ('w, bool) io" where
  "areAllItemsChecked_loop drv checkboxes count i s =
     (if i < count then
        (case locator_isChecked drv (Nth checkboxes i) s of
           (Inl e, s1) \<Rightarrow> (Inl e, s1)
         | (Inr checked, s1) \<Rightarrow>
             if \<not> checked then (Inr False, s1)
             else areAllItemsChecked_loop drv checkboxes count (i + 1) s1)
      else (Inr True, s))"
  by pat_completeness auto
termination
  by (relation "measure (\<lambda>(drv, checkboxes, count, i, s). count - i)") auto

declare areAllItemsChecked_loop.simps [simp del]

definition areAllItemsChecked :: "'w driver \<Rightarrow> ('w, bool) io" where
  "areAllItemsChecked drv =
     await (locator_count drv item_checkboxes) (\<lambda>count.
       if count = 0 then resolve False
       else areAllItemsChecked_loop drv item_checkboxes count 0)"

text \<open>
  \<^verbatim>\<open>const options = [
    { locator: this.gridViewButton, value: 'grid' },
    { locator: this.listViewButton, value: 'list' },
    { locator: this.cardViewButton, value: 'card' } ];
  for (const option of options) {
    if (await option.locator.getAttribute('aria-selected') === 'true') {
      return option.value;
    }
  }
  return 'unknown';\<close>
\<close>

fun getActiveViewMode_loop :: "'w driver \<Rightarrow> (locator \<times> string) list \<Rightarrow> ('w, string) io" where
  "getActiveViewMode_loop drv [] s = (Inr ''unknown'', s)"
| "getActiveViewMode_loop drv (opt # options) s =
     (case locator_getAttribute drv (fst opt) ''aria-selected'' s of
        (Inl e, s1) \<Rightarrow> (Inl e, s1)
      | (Inr a, s1) \<Rightarrow>
          if a = Some ''true'' then (Inr (snd opt), s1)
          else getActiveViewMode_loop drv options s1)"

declare getActiveViewMode_loop.simps [simp del]

definition getActiveViewMode :: "'w driver \<Rightarrow> ('w, string) io" where
  "getActiveViewMode drv =
     getActiveViewMode_loop drv
       [(gridViewButton, ''grid''), (listViewButton, ''list''), (cardViewButton, ''card'')]"

subsection \<open>Reading a log of page-object calls\<close>

text \<open>
  The success indicator of file number \<open>i\<close> (counted from 1) of an upload: the selector of
  the source with \<open>i\<close> as the child index.
\<close>

definition file_success_indicator :: "nat \<Rightarrow> locator" where
  "file_success_indicator i =
     Locator (''div:nth-child('' @ show_nat i @ '') > .horizontal > .file-status-icon > .success'')"

text \<open>The log records a wait for the element to be visible.\<close>

definition waited_for_visible :: "event list \<Rightarrow> locator \<Rightarrow> bool" where
  "waited_for_visible lg l =
     list_ex (\<lambda>ev. case fst ev of WaitFor l' st t \<Rightarrow> l' = l \<and> st = Visible | _ \<Rightarrow> False) lg"

text \<open>A read of the \<^verbatim>\<open>aria-selected\<close> attribute and what it returned.\<close>

definition selected_read :: "locator \<Rightarrow> js_error + string option \<Rightarrow> event" where
  "selected_read l r = (GetAttribute l ''aria-selected'', map_sum id VAttr r)"

text \<open>A checkbox of the item list reporting that it is checked.\<close>

definition checked_report :: "nat \<Rightarrow> event" where
  "checked_report i = (IsChecked (Nth item_checkboxes i), Inr (VBool True))"

section \<open>BasePage: dialog handlers\<close>

text \<open>
  \<^verbatim>\<open>async acceptAlert() { this.page.on('dialog', async dialog => { await dialog.accept(); }); }
  async dismissAlert() { this.page.on('dialog', async dialog => { await dialog.dismiss(); }); }\<close>
  The two arrow functions are the only dialog handlers of the repository. \<^verbatim>\<open>page.on\<close> is
  the \<^verbatim>\<open>on\<close> of the driver's event emitter: it adds the listener at the end of the
  listeners of the event and neither replaces nor removes one. A dialog event is passed to
  every listener, in the order of registration. \<open>BasePage\<close> has the single field
  \<^verbatim>\<open>page\<close>, which no method assigns.
\<close>

datatype dialog_handler = AcceptHandler | DismissHandler

datatype dialog_call = DialogAccept | DialogDismiss

record page =
  dialog_listeners :: "dialog_handler list"

definition new_page :: page where
  "new_page = \<lparr>dialog_listeners = []\<rparr>"

definition page_on_dialog :: "dialog_handler \<Rightarrow> page \<Rightarrow> page" where
  "page_on_dialog h p = p\<lparr>dialog_listeners := dialog_listeners p @ [h]\<rparr>"

definition acceptAlert :: "page \<Rightarrow> page" where
  "acceptAlert p = page_on_dialog AcceptHandler p"

definition dismissAlert :: "page \<Rightarrow> page" where
  "dismissAlert p = page_on_dialog DismissHandler p"

fun run_handler :: "dialog_handler \<Rightarrow> dialog_call" where
  "run_handler AcceptHandler = DialogAccept"
| "run_handler DismissHandler = DialogDismiss"

text \<open>The calls a dialog receives when it opens on the page.\<close>

definition emit_dialog :: "page \<Rightarrow> dialog_call list" where
  "emit_dialog p = map run_handler (dialog_listeners p)"

section \<open>Global setup and environment validation\<close>

text \<open>\<^verbatim>\<open>process.env\<close>, after \<^verbatim>\<open>dotenv.config()\<close> has loaded the \<^verbatim>\<open>.env\<close> file.\<close>

type_synonym process_env = "string \<Rightarrow> string option"

definition required :: "string list" where
  "required = [''BASE_URL'', ''USER_EMAIL'', ''USER_PASSWORD'']"

text \<open>\<^verbatim>\<open>!process.env[key]\<close>: the variable is undefined or the empty string.\<close>

definition falsy :: "string option \<Rightarrow> bool" where
  "falsy v = (case v of None \<Rightarrow> True | Some x \<Rightarrow> x = [])"

definition missing_vars :: "process_env \<Rightarrow> string list" where
  "missing_vars env = filter (\<lambda>key. falsy (env key)) required"

text \<open>\<^verbatim>\<open>Array.prototype.join\<close>\<close>

fun join :: "string \<Rightarrow> string list \<Rightarrow> string" where
  "join sep [] = []"
| "join sep [x] = x"
| "join sep (x # y # ys) = x @ sep @ join sep (y # ys)"

text \<open>
  The message of the error of \<^verbatim>\<open>globalSetup\<close>; the dash after "failed" is an em dash,
  written as its UTF-8 bytes, and the two sentences are separated by a line feed.
\<close>

definition globalSetup_message :: "string list \<Rightarrow> string" where
  "globalSetup_message missing =
     ''Global setup failed '' @ [CHR 0xE2, CHR 0x80, CHR 0x94]
       @ '' missing required environment variables: '' @ join '', '' missing @ ''.''
       @ [CHR 0x0A] @ ''Copy .env.example to .env and fill in the values.''"

text \<open>
  \<^verbatim>\<open>const required = ['BASE_URL', 'USER_EMAIL', 'USER_PASSWORD'];
  const missing = required.filter(key => !process.env[key]);
  if (missing.length > 0) { throw new Error(...); }\<close>
  followed by the rest of the setup (the directories, the login, the storage state), which
  is the parameter \<open>rest\<close>.
\<close>

definition globalSetup :: "process_env \<Rightarrow> ('w, unit) io \<Rightarrow> ('w, unit) io" where
  "globalSetup env rest s =
     (let missing = missing_vars env in
      if length missing > 0 then (Inl (Error (globalSetup_message missing)), s)
      else rest s)"

definition validateEnvironment :: "process_env \<Rightarrow> js_error + unit" where
  "validateEnvironment env =
     (let missing = missing_vars env in
      if length missing > 0
      then Inl (Error (''Missing required environment variables: '' @ join '', '' missing))
      else Inr ())"

section \<open>TestDataHelper\<close>

text \<open>The values \<^verbatim>\<open>JSON.parse\<close> produces; an object is the list of its members.\<close>

datatype json =
    JNull
  | JBool bool
  | JNumber int
  | JString string
  | JArray "json list"
  | JObject "(string \<times> json) list"

text \<open>\<^verbatim>\<open>`${error}`\<close>: the name of the error and its message.\<close>

fun js_error_text :: "js_error \<Rightarrow> string" where
  "js_error_text (Error m) = (if m = [] then ''Error'' else ''Error: '' @ m)"
| "js_error_text (TimeoutError m) = (if m = [] then ''TimeoutError'' else ''TimeoutError: '' @ m)"
| "js_error_text (SyntaxError m) = (if m = [] then ''SyntaxError'' else ''SyntaxError: '' @ m)"

text \<open>
  \<^verbatim>\<open>try {
    const data = fs.readFileSync(filePath, 'utf8');
    return JSON.parse(data);
  } catch (error) {
    throw new Error(`Error al cargar los datos de prueba desde ${filePath}: ${error}`);
  }\<close>
  The file system and the JSON parser of the runtime are parameters.
\<close>

definition loadTestData ::
  "(string \<Rightarrow> js_error + string) \<Rightarrow> (string \<Rightarrow> js_error + json) \<Rightarrow> string \<Rightarrow> js_error + json" where
  "loadTestData readFileSync JSON_parse filePath =
     (case (case readFileSync filePath of
              Inl e \<Rightarrow> Inl e
            | Inr contents \<Rightarrow> JSON_parse contents) of
        Inl error \<Rightarrow>
          Inl (Error (''Error al cargar los datos de prueba desde '' @ filePath @ '': ''
                        @ js_error_text error))
      | Inr v \<Rightarrow> Inr v)"

text \<open>
  The interface \<^verbatim>\<open>ContentData\<close>, as a check on a parsed value: six members, each an
  object with the listed members of the listed types.
\<close>

definition json_member :: "json \<Rightarrow> string \<Rightarrow> json option" where
  "json_member j k = (case j of JObject ms \<Rightarrow> map_of ms k | _ \<Rightarrow> None)"

definition has_string :: "json option \<Rightarrow> string \<Rightarrow> bool" where
  "has_string j k =
     (case j of None \<Rightarrow> False
      | Some obj \<Rightarrow> (case json_member obj k of Some (JString x) \<Rightarrow> True | _ \<Rightarrow> False))"

definition has_number :: "json option \<Rightarrow> string \<Rightarrow> bool" where
  "has_number j k =
     (case j of None \<Rightarrow> False
      | Some obj \<Rightarrow> (case json_member obj k of Some (JNumber x) \<Rightarrow> True | _ \<Rightarrow> False))"

definition is_ContentData :: "json \<Rightarrow> bool" where
  "is_ContentData j =
     (has_string (json_member j ''folderNames'') ''specialChars''
      \<and> has_string (json_member j ''folderNames'') ''prefix''
      \<and> has_string (json_member j ''urls'') ''invalid''
      \<and> has_string (json_member j ''search'') ''searchTerm''
      \<and> has_number (json_member j ''performance'') ''largeFileUploadTimeout''
      \<and> has_number (json_member j ''performance'') ''multipleOperationsTimeout''
      \<and> has_string (json_member j ''errorPatterns'') ''duplicate''
      \<and> has_string (json_member j ''viewModes'') ''grid''
      \<and> has_string (json_member j ''viewModes'') ''list''
      \<and> has_string (json_member j ''viewModes'') ''card'')"

section \<open>A test double for the driver\<close>

text \<open>
  A small deterministic browser, used to run the methods on concrete inputs: a wait
  succeeds when the element is (or is not) among the visible ones, every action succeeds,
  and each timer tick brings a pending upload one step closer to completion.
\<close>

record dom =
  dom_visible :: "locator list"
  dom_checked :: "bool list"
  dom_selected :: "locator list"
  dom_pending :: nat

definition dom_driver :: "dom driver" where
  "dom_driver = \<lparr>
     waitFor_op = (\<lambda>l st t w.
       if (l \<in> set (dom_visible w)) = (st = Visible) then (Inr (), w)
       else (Inl (TimeoutError ''locator.waitFor: Timeout exceeded''), w)),
     click_op = (\<lambda>l w. (Inr (), w)),
     fill_op = (\<lambda>l v w. (Inr (), w)),
     hover_op = (\<lambda>l w. (Inr (), w)),
     selectOption_op = (\<lambda>l v w. (Inr (), w)),
     setInputFiles_op = (\<lambda>l fs w. (Inr (), w)),
     count_op = (\<lambda>l w. (Inr (length (dom_checked w)), w)),
     isChecked_op = (\<lambda>l w.
       case l of
         Nth _ i \<Rightarrow>
           if i < length (dom_checked w) then (Inr (dom_checked w ! i), w)
           else (Inl (TimeoutError ''locator.isChecked: Timeout exceeded''), w)
       | _ \<Rightarrow> (Inl (Error ''locator.isChecked: strict mode violation''), w)),
     getAttribute_op = (\<lambda>l a w.
       if l \<in> set (dom_visible w)
       then (Inr (Some (if l \<in> set (dom_selected w) then ''true'' else ''false'')), w)
       else (Inl (TimeoutError ''locator.getAttribute: Timeout exceeded''), w)),
     setTimeout_op = (\<lambda>d w. w\<lparr>dom_pending := dom_pending w - 1\<rparr>) \<rparr>"

definition empty_dom :: dom where
  "empty_dom = \<lparr>dom_visible = [], dom_checked = [], dom_selected = [], dom_pending = 0\<rparr>"

text \<open>A condition for the test double: the pending upload has completed.\<close>

definition upload_done :: "dom \<Rightarrow> (js_error + bool) \<times> dom" where
  "upload_done w = (Inr (dom_pending w = 0), w)"

text \<open>
  The page after an upload of \<open>n\<close> files has completed: the add and upload buttons are
  visible, and so is the success indicator of each of the \<open>n\<close> files.
\<close>

definition upload_dom :: "nat \<Rightarrow> dom" where
  "upload_dom n =
     empty_dom\<lparr>dom_visible :=
       [addButton, uploadFilesButton] @ map file_success_indicator [1..<Suc n]\<rparr>"

text \<open>
  A file system holding the test-data file with the text \<^verbatim>\<open>{}\<close>, and the parser's
  answer on that text.
\<close>

definition stub_readFileSync :: "string \<Rightarrow> js_error + string" where
  "stub_readFileSync filePath =
     (if filePath = ''src/data/contentData.json'' then Inr ''{}''
      else Inl (Error ''ENOENT: no such file or directory''))"

definition stub_JSON_parse :: "string \<Rightarrow> js_error + json" where
  "stub_JSON_parse contents =
     (if contents = ''{}'' then Inr (JObject [])
      else Inl (SyntaxError ''Unexpected token''))"

text \<open>An environment that sets only \<^verbatim>\<open>BASE_URL\<close>.\<close>

definition only_base_url :: process_env where
  "only_base_url = [''BASE_URL'' \<mapsto> ''https://demo4.dexmanager.com/'']"

section \<open>Theorems\<close>

subsection \<open>BasePage: visibility check and actions\<close>

lemma perform_apply:
  "f w = (r, w') \<Longrightarrow> perform c to_val f (lg, w) = (r, (lg @ [(c, map_sum id to_val r)], w'))"
  by (simp add: perform_def)

text \<open>
  C7. For every locator, \<open>isVisible\<close> never throws: it makes one wait for the element to
  be visible with a timeout of 5000 ms, returns true when that wait succeeds, and returns
  false when the wait fails, whatever the error.
\<close>

theorem isVisible_never_throws:
  assumes "waitFor_op drv l Visible (Some 5000) w = (r, w')"
  shows "isVisible drv l (lg, w) =
           (Inr (case r of Inl e \<Rightarrow> False | Inr u \<Rightarrow> True),
            (lg @ [(WaitFor l Visible (Some 5000), map_sum id unit_val r)], w'))"
  using assms
  by (cases r)
     (simp_all add: isVisible_def try_catch_def await_def resolve_def locator_waitFor_def
        perform_apply)

theorem isVisible_never_throws_witness:
  "isVisible dom_driver (Locator ''.success'') ([], empty_dom) =
     (Inr False,
      ([(WaitFor (Locator ''.success'') Visible (Some 5000),
         Inl (TimeoutError ''locator.waitFor: Timeout exceeded''))], empty_dom))"
  using isVisible_never_throws
    [of dom_driver "Locator ''.success''" empty_dom
        "Inl (TimeoutError ''locator.waitFor: Timeout exceeded'')" empty_dom "[]"]
  by (simp add: dom_driver_def empty_dom_def)

lemma await_perform:
  "f w = (r, w1) \<Longrightarrow>
   await (perform c to_val f) k (lg, w) =
     (case r of
        Inl e \<Rightarrow> (Inl e, (lg @ [(c, Inl e)], w1))
      | Inr x \<Rightarrow> k x (lg @ [(c, Inr (to_val x))], w1))"
  by (cases r) (simp_all add: await_def perform_apply)

lemma perform_unfold:
  "perform c to_val f (lg, w) =
     (fst (f w), (lg @ [(c, map_sum id to_val (fst (f w)))], snd (f w)))"
  by (simp add: perform_def split: prod.split)

text \<open>
  C1. For every locator, each of \<open>click\<close>, \<open>fill\<close>, \<open>hover\<close> and \<open>selectOption\<close> first
  waits for the element to be visible (with the driver's default timeout) and only then
  performs the action. When the wait fails, the method fails with that very error, and the
  wait is the only driver call it has made: the action is not attempted, the wait is not
  retried, the error is not swallowed.
\<close>

theorem actions_wait_for_visible_first:
  assumes "waitFor_op drv l Visible None w = (r, w1)"
  shows "click drv l (lg, w) =
           (case r of
              Inl e \<Rightarrow> (Inl e, (lg @ [(WaitFor l Visible None, Inl e)], w1))
            | Inr u \<Rightarrow>
                (fst (click_op drv l w1),
                 (lg @ [(WaitFor l Visible None, Inr VUnit),
                        (Click l, map_sum id unit_val (fst (click_op drv l w1)))],
                  snd (click_op drv l w1))))
       \<and> fill drv l v (lg, w) =
           (case r of
              Inl e \<Rightarrow> (Inl e, (lg @ [(WaitFor l Visible None, Inl e)], w1))
            | Inr u \<Rightarrow>
                (fst (fill_op drv l v w1),
                 (lg @ [(WaitFor l Visible None, Inr VUnit),
                        (Fill l v, map_sum id unit_val (fst (fill_op drv l v w1)))],
                  snd (fill_op drv l v w1))))
       \<and> hover drv l (lg, w) =
           (case r of
              Inl e \<Rightarrow> (Inl e, (lg @ [(WaitFor l Visible None, Inl e)], w1))
            | Inr u \<Rightarrow>
                (fst (hover_op drv l w1),
                 (lg @ [(WaitFor l Visible None, Inr VUnit),
                        (Hover l, map_sum id unit_val (fst (hover_op drv l w1)))],
                  snd (hover_op drv l w1))))
       \<and> selectOption drv l v (lg, w) =
           (case r of
              Inl e \<Rightarrow> (Inl e, (lg @ [(WaitFor l Visible None, Inl e)], w1))
            | Inr u \<Rightarrow>
                (fst (selectOption_op drv l v w1),
                 (lg @ [(WaitFor l Visible None, Inr VUnit),
                        (SelectOption l v, map_sum id unit_val (fst (selectOption_op drv l v w1)))],
                  snd (selectOption_op drv l v w1))))"
proof -
  have c: "click drv l (lg, w) = (case r of
              Inl e \<Rightarrow> (Inl e, (lg @ [(WaitFor l Visible None, Inl e)], w1))
            | Inr u \<Rightarrow> locator_click drv l (lg @ [(WaitFor l Visible None, Inr (unit_val u))], w1))"
    unfolding click_def locator_waitFor_def by (rule await_perform [where f = "waitFor_op drv l Visible None", OF assms])
  have f: "fill drv l v (lg, w) = (case r of
              Inl e \<Rightarrow> (Inl e, (lg @ [(WaitFor l Visible None, Inl e)], w1))
            | Inr u \<Rightarrow> locator_fill drv l v (lg @ [(WaitFor l Visible None, Inr (unit_val u))], w1))"
    unfolding fill_def locator_waitFor_def by (rule await_perform [where f = "waitFor_op drv l Visible None", OF assms])
  have h: "hover drv l (lg, w) = (case r of
              Inl e \<Rightarrow> (Inl e, (lg @ [(WaitFor l Visible None, Inl e)], w1))
            | Inr u \<Rightarrow> locator_hover drv l (lg @ [(WaitFor l Visible None, Inr (unit_val u))], w1))"
    unfolding hover_def locator_waitFor_def by (rule await_perform [where f = "waitFor_op drv l Visible None", OF assms])
  have s: "selectOption drv l v (lg, w) = (case r of
              Inl e \<Rightarrow> (Inl e, (lg @ [(WaitFor l Visible None, Inl e)], w1))
            | Inr u \<Rightarrow> locator_selectOption drv l v (lg @ [(WaitFor l Visible None, Inr (unit_val u))], w1))"
    unfolding selectOption_def locator_waitFor_def by (rule await_perform [where f = "waitFor_op drv l Visible None", OF assms])
  have c': ?thesis if "r = Inl e" for e
    using that c f h s by simp
  have c'': ?thesis if "r = Inr u" for u
    using that c f h s
    by (simp add: locator_click_def locator_fill_def locator_hover_def
          locator_selectOption_def perform_unfold unit_val_def)
  show ?thesis
    using c' c'' by (cases r) blast+
qed

theorem actions_wait_for_visible_first_witness:
  "click dom_driver (Locator ''#save'') ([], empty_dom) =
     (Inl (TimeoutError ''locator.waitFor: Timeout exceeded''),
      ([(WaitFor (Locator ''#save'') Visible None,
         Inl (TimeoutError ''locator.waitFor: Timeout exceeded''))], empty_dom))
   \<and> fill dom_driver (Locator ''#name'') ''docs''
       ([], empty_dom\<lparr>dom_visible := [Locator ''#name'']\<rparr>) =
     (Inr (),
      ([(WaitFor (Locator ''#name'') Visible None, Inr VUnit),
        (Fill (Locator ''#name'') ''docs'', Inr VUnit)],
       empty_dom\<lparr>dom_visible := [Locator ''#name'']\<rparr>))"
  using actions_wait_for_visible_first
    [of dom_driver "Locator ''#save''" empty_dom
        "Inl (TimeoutError ''locator.waitFor: Timeout exceeded'')" empty_dom "[]"]
    actions_wait_for_visible_first
    [of dom_driver "Locator ''#name''" "empty_dom\<lparr>dom_visible := [Locator ''#name'']\<rparr>"
        "Inr ()" "empty_dom\<lparr>dom_visible := [Locator ''#name'']\<rparr>" "[]" "''docs''"]
  by (simp add: dom_driver_def empty_dom_def unit_val_def)

subsection \<open>WaitHelper: exponential backoff\<close>

lemma failed_attempts_0: "failed_attempts b i 0 = []"
  by (simp add: failed_attempts_def)

lemma failed_attempts_Suc_front:
  "failed_attempts b i (Suc k) = failed_attempt b i @ failed_attempts b (Suc i) k"
proof -
  have "[i..<i + Suc k] = i # [Suc i..<Suc i + k]"
    by (simp add: upt_conv_Cons)
  then show ?thesis
    by (simp add: failed_attempts_def)
qed

lemma sleep_apply:
  "sleep drv d (lg, w) = (Inr (), (lg @ [(SetTimeout d, Inr VUnit)], setTimeout_op drv d w))"
  by (simp add: sleep_def perform_def unit_val_def)

lemma waitWithBackoff_loop_log:
  "waitWithBackoff_loop drv cond m b i (lg, w) = (res, (lg', w')) \<Longrightarrow>
   \<exists>k. (res = Inr () \<and> int (i + k) < m
          \<and> lg' = lg @ failed_attempts b i k @ [(Condition, Inr (VBool True))])
     \<or> (\<exists>e. res = Inl e \<and> int (i + k) < m
          \<and> lg' = lg @ failed_attempts b i k @ [(Condition, Inl e)])
     \<or> (res = Inl (Error (exhausted_message m)) \<and> k = nat m - i
          \<and> lg' = lg @ failed_attempts b i k)"
proof (induction drv cond m b i "(lg, w)" arbitrary: lg w rule: waitWithBackoff_loop.induct)
  case (1 drv cond m b i)
  show ?case
  proof (cases "int i < m")
    case False
    with "1.prems" have "res = Inl (Error (exhausted_message m))" "lg' = lg"
      by (simp_all add: waitWithBackoff_loop.simps)
    moreover from False have "nat m - i = 0" by simp
    ultimately show ?thesis
      by (intro exI [of _ 0]) (simp add: failed_attempts_0)
  next
    case True
    obtain r w1 where c: "cond w = (r, w1)" by (cases "cond w")
    have p: "perform Condition VBool cond (lg, w) = (r, (lg @ [(Condition, map_sum id VBool r)], w1))"
      using c by (rule perform_apply)
    show ?thesis
    proof (cases r)
      case (Inl e)
      with True p "1.prems" have "res = Inl e" "lg' = lg @ [(Condition, Inl e)]"
        by (simp_all add: waitWithBackoff_loop.simps [of drv cond m b i])
      with True show ?thesis
        by (intro exI [of _ 0]) (simp add: failed_attempts_0)
    next
      case (Inr v)
      show ?thesis
      proof (cases v)
        case True
        with Inr \<open>int i < m\<close> p "1.prems" have "res = Inr ()" "lg' = lg @ [(Condition, Inr (VBool True))]"
          by (simp_all add: waitWithBackoff_loop.simps [of drv cond m b i])
        with \<open>int i < m\<close> show ?thesis
          by (intro exI [of _ 0]) (simp add: failed_attempts_0)
      next
        case False
        let ?lg1 = "lg @ [(Condition, Inr (VBool False))]"
        let ?lg2 = "?lg1 @ [(SetTimeout (b * 2 ^ i), Inr VUnit)]"
        let ?w2 = "setTimeout_op drv (b * 2 ^ i) w1"
        have p': "perform Condition VBool cond (lg, w) = (Inr False, (?lg1, w1))"
          using p Inr False by simp
        have sl: "sleep drv (b * 2 ^ i) (?lg1, w1) = (Inr (), (?lg2, ?w2))"
          by (rule sleep_apply)
        have step: "waitWithBackoff_loop drv cond m b i (lg, w) =
                    waitWithBackoff_loop drv cond m b (i + 1) (?lg2, ?w2)"
          using \<open>int i < m\<close> p' sl by (simp add: waitWithBackoff_loop.simps [of drv cond m b i])
        from step "1.prems"
        have "waitWithBackoff_loop drv cond m b (i + 1) (?lg2, ?w2) = (res, (lg', w'))"
          by simp
        from "1.hyps" [OF \<open>int i < m\<close> p' [symmetric] refl refl sl [symmetric] this]
        obtain k where k:
          "(res = Inr () \<and> int (i + 1 + k) < m
              \<and> lg' = ?lg2 @ failed_attempts b (i + 1) k @ [(Condition, Inr (VBool True))])
           \<or> (\<exists>e. res = Inl e \<and> int (i + 1 + k) < m
              \<and> lg' = ?lg2 @ failed_attempts b (i + 1) k @ [(Condition, Inl e)])
           \<or> (res = Inl (Error (exhausted_message m)) \<and> k = nat m - (i + 1)
              \<and> lg' = ?lg2 @ failed_attempts b (i + 1) k)"
          by auto
        have fa: "?lg2 @ failed_attempts b (i + 1) k @ t = lg @ failed_attempts b i (Suc k) @ t" for t
          by (simp add: failed_attempts_Suc_front failed_attempt_def)
        have fa': "?lg2 @ failed_attempts b (i + 1) k = lg @ failed_attempts b i (Suc k)"
          using fa [of "[]"] by simp
        have nm: "Suc k = nat m - i" if "k = nat m - (i + 1)"
          using that \<open>int i < m\<close> by linarith
        have ik: "int (i + Suc k) < m" if "int (i + 1 + k) < m"
          using that by simp
        from k consider
          (ok) "res = Inr ()" "int (i + 1 + k) < m"
               "lg' = ?lg2 @ failed_attempts b (i + 1) k @ [(Condition, Inr (VBool True))]"
        | (err) e where "res = Inl e" "int (i + 1 + k) < m"
               "lg' = ?lg2 @ failed_attempts b (i + 1) k @ [(Condition, Inl e)]"
        | (exhausted) "res = Inl (Error (exhausted_message m))" "k = nat m - (i + 1)"
               "lg' = ?lg2 @ failed_attempts b (i + 1) k"
          by blast
        then show ?thesis
        proof cases
          case ok
          then have "res = Inr () \<and> int (i + Suc k) < m
              \<and> lg' = lg @ failed_attempts b i (Suc k) @ [(Condition, Inr (VBool True))]"
            using ik fa by simp
          then show ?thesis by blast
        next
          case err
          then have "res = Inl e \<and> int (i + Suc k) < m
              \<and> lg' = lg @ failed_attempts b i (Suc k) @ [(Condition, Inl e)]"
            using ik fa by simp
          then show ?thesis by blast
        next
          case exhausted
          then have "res = Inl (Error (exhausted_message m)) \<and> Suc k = nat m - i
              \<and> lg' = lg @ failed_attempts b i (Suc k)"
            using nm fa' by simp
          then show ?thesis by blast
        qed
      qed
    qed
  qed
qed

lemma waitWithBackoff_loop_exhausted:
  "\<not> int i < m \<Longrightarrow>
   waitWithBackoff_loop drv cond m b i s = (Inl (Error (exhausted_message m)), s)"
  by (simp add: waitWithBackoff_loop.simps)

lemma waitWithBackoff_loop_true:
  "int i < m \<Longrightarrow> cond w = (Inr True, w1) \<Longrightarrow>
   waitWithBackoff_loop drv cond m b i (lg, w) =
     (Inr (), (lg @ [(Condition, Inr (VBool True))], w1))"
  by (simp add: waitWithBackoff_loop.simps [of drv cond m b i] perform_apply)

lemma waitWithBackoff_loop_false:
  "int i < m \<Longrightarrow> cond w = (Inr False, w1) \<Longrightarrow>
   waitWithBackoff_loop drv cond m b i (lg, w) =
     waitWithBackoff_loop drv cond m b (Suc i)
       (lg @ [(Condition, Inr (VBool False)), (SetTimeout (b * 2 ^ i), Inr VUnit)],
        setTimeout_op drv (b * 2 ^ i) w1)"
  by (simp add: waitWithBackoff_loop.simps [of drv cond m b i] perform_apply sleep_apply)

lemma condition_calls_append:
  "condition_calls (xs @ ys) = condition_calls xs + condition_calls ys"
  by (simp add: condition_calls_def)

lemma condition_calls_failed_attempts: "condition_calls (failed_attempts b i k) = k"
proof (induction k arbitrary: i)
  case 0
  show ?case by (simp add: failed_attempts_0 condition_calls_def)
next
  case (Suc k)
  have "condition_calls (failed_attempt b i) = 1"
    by (simp add: failed_attempt_def condition_calls_def)
  with Suc [of "Suc i"] show ?case
    by (simp add: failed_attempts_Suc_front condition_calls_append)
qed

text \<open>
  C2, as the code has it. \<open>waitWithBackoff\<close> evaluates the condition repeatedly. After
  a failed evaluation number \<open>i\<close> (counted from 0) it sleeps \<open>baseDelay * 2 ^ i\<close>, so the
  delay before attempt \<open>i \<ge> 1\<close> is \<open>baseDelay * 2 ^ (i - 1)\<close> and the first attempt is not
  delayed. It returns as soon as the condition yields true, fails with the condition's own
  error when the condition fails, and after \<open>maxAttempts\<close> failed attempts (each followed by
  its sleep) throws the exhaustion \<open>Error\<close>, with no further attempt.
\<close>

theorem waitWithBackoff_log:
  assumes "waitWithBackoff drv cond maxAttempts baseDelay (lg, w) = (res, (lg', w'))"
  shows "\<exists>k. (res = Inr () \<and> int k < maxAttempts
               \<and> lg' = lg @ failed_attempts baseDelay 0 k @ [(Condition, Inr (VBool True))])
           \<or> (\<exists>e. res = Inl e \<and> int k < maxAttempts
               \<and> lg' = lg @ failed_attempts baseDelay 0 k @ [(Condition, Inl e)])
           \<or> (res = Inl (Error (exhausted_message maxAttempts)) \<and> k = nat maxAttempts
               \<and> lg' = lg @ failed_attempts baseDelay 0 k)"
  using waitWithBackoff_loop_log [of drv cond maxAttempts baseDelay 0 lg w res lg' w'] assms
  by (simp add: waitWithBackoff_def)

theorem waitWithBackoff_log_witness:
  "waitWithBackoff dom_driver upload_done 3 1000 ([], empty_dom\<lparr>dom_pending := 1\<rparr>) =
     (Inr (),
      ([(Condition, Inr (VBool False)), (SetTimeout 1000, Inr VUnit),
        (Condition, Inr (VBool True))], empty_dom))
   \<and> (\<exists>k. int k < 3
         \<and> [(Condition, Inr (VBool False)), (SetTimeout 1000, Inr VUnit),
            (Condition, Inr (VBool True))] =
           failed_attempts 1000 0 k @ [(Condition, Inr (VBool True))])"
proof -
  have run: "waitWithBackoff dom_driver upload_done 3 1000 ([], empty_dom\<lparr>dom_pending := 1\<rparr>) =
     (Inr (),
      ([(Condition, Inr (VBool False)), (SetTimeout 1000, Inr VUnit),
        (Condition, Inr (VBool True))], empty_dom))"
    by (simp add: waitWithBackoff_def waitWithBackoff_loop_false waitWithBackoff_loop_true
          upload_done_def dom_driver_def empty_dom_def)
  from waitWithBackoff_log [OF run] run show ?thesis
    by simp
qed

text \<open>
  C2, the specification's wording, read on a log: the delay slept immediately before each evaluation
  number \<open>i\<close> of the condition is \<open>baseDelay * 2 ^ i\<close>.
\<close>

theorem waitWithBackoff_delay_before_counterexample:
  "\<not> delays_before_attempts 1000
       (fst (snd (waitWithBackoff dom_driver upload_done 3 1000
          ([], empty_dom\<lparr>dom_pending := 1\<rparr>))))
   \<and> delay_before
       (fst (snd (waitWithBackoff dom_driver upload_done 3 1000
          ([], empty_dom\<lparr>dom_pending := 1\<rparr>)))) 0 = None
   \<and> delay_before
       (fst (snd (waitWithBackoff dom_driver upload_done 3 1000
          ([], empty_dom\<lparr>dom_pending := 1\<rparr>)))) 1 = Some (1000 * 2 ^ 0)"
  by (simp add: waitWithBackoff_def waitWithBackoff_loop_false waitWithBackoff_loop_true
        upload_done_def dom_driver_def empty_dom_def delays_before_attempts_def
        delay_before_def condition_calls_def)

text \<open>
  C10. \<open>waitWithBackoff\<close> evaluates its condition at most \<open>maxAttempts\<close> times. Called with
  \<open>maxAttempts \<le> 0\<close> it throws the exhaustion error at once: the condition is not
  evaluated, nothing is slept, the world is untouched.
\<close>

theorem waitWithBackoff_at_most_maxAttempts:
  "condition_calls (fst (snd (waitWithBackoff drv cond maxAttempts baseDelay (lg, w))))
     \<le> condition_calls lg + nat maxAttempts
   \<and> (maxAttempts \<le> 0 \<longrightarrow>
        waitWithBackoff drv cond maxAttempts baseDelay (lg, w) =
          (Inl (Error (exhausted_message maxAttempts)), (lg, w)))"
proof
  obtain res lg' w' where run:
    "waitWithBackoff_loop drv cond maxAttempts baseDelay 0 (lg, w) = (res, (lg', w'))"
    by (metis prod.exhaust)
  have one: "condition_calls [(Condition, r)] = 1" for r
    by (simp add: condition_calls_def)
  from waitWithBackoff_loop_log [OF run] obtain k where
    "(int k < maxAttempts \<and> (\<exists>r. lg' = lg @ failed_attempts baseDelay 0 k @ [(Condition, r)]))
     \<or> (k = nat maxAttempts \<and> lg' = lg @ failed_attempts baseDelay 0 k)"
    by fastforce
  then have "condition_calls lg' \<le> condition_calls lg + nat maxAttempts"
    by (auto simp: condition_calls_append condition_calls_failed_attempts one)
  with run show "condition_calls (fst (snd (waitWithBackoff drv cond maxAttempts baseDelay (lg, w))))
     \<le> condition_calls lg + nat maxAttempts"
    by (simp add: waitWithBackoff_def)
next
  show "maxAttempts \<le> 0 \<longrightarrow>
        waitWithBackoff drv cond maxAttempts baseDelay (lg, w) =
          (Inl (Error (exhausted_message maxAttempts)), (lg, w))"
    by (simp add: waitWithBackoff_def waitWithBackoff_loop_exhausted)
qed

theorem waitWithBackoff_at_most_maxAttempts_witness:
  "(0::int) \<le> 0
   \<and> waitWithBackoff dom_driver upload_done 0 1000 ([], empty_dom\<lparr>dom_pending := 1\<rparr>) =
       (Inl (Error (''La condici'' @ [CHR 0xC3, CHR 0xB3] @ ''n no se cumpli''
               @ [CHR 0xC3, CHR 0xB3] @ '' despu'' @ [CHR 0xC3, CHR 0xA9]
               @ ''s de 0 intentos'')),
        ([], empty_dom\<lparr>dom_pending := 1\<rparr>))
   \<and> condition_calls (fst (snd (waitWithBackoff dom_driver upload_done 2 1000
         ([], empty_dom\<lparr>dom_pending := 5\<rparr>)))) \<le> 2"
  using waitWithBackoff_at_most_maxAttempts
      [of dom_driver upload_done 0 1000 "[]" "empty_dom\<lparr>dom_pending := 1\<rparr>"]
    waitWithBackoff_at_most_maxAttempts
      [of dom_driver upload_done 2 1000 "[]" "empty_dom\<lparr>dom_pending := 5\<rparr>"]
  by (simp add: exhausted_message_def show_int_def show_nat.simps condition_calls_def)

subsection \<open>ContentPage: selection and view-mode queries\<close>

lemma isChecked_apply:
  "isChecked_op drv l w = (r, w1) \<Longrightarrow>
   locator_isChecked drv l (lg, w) = (r, (lg @ [(IsChecked l, map_sum id VBool r)], w1))"
  by (simp add: locator_isChecked_def perform_apply)

lemma areAllItemsChecked_loop_log:
  "areAllItemsChecked_loop drv cbs n i (lg, w) = (res, (lg', w')) \<Longrightarrow>
   (res = Inr True) =
     (lg' = lg @ map (\<lambda>j. (IsChecked (Nth cbs j), Inr (VBool True))) [i..<n])"
proof (induction drv cbs n i "(lg, w)" arbitrary: lg w rule: areAllItemsChecked_loop.induct)
  case (1 drv cbs n i)
  show ?case
  proof (cases "i < n")
    case False
    with "1.prems" show ?thesis
      by (auto simp: areAllItemsChecked_loop.simps [of drv cbs n i])
  next
    case True
    obtain r w1 where op: "isChecked_op drv (Nth cbs i) w = (r, w1)"
      by (cases "isChecked_op drv (Nth cbs i) w")
    note p = isChecked_apply [OF op, of lg]
    from True have upt: "[i..<n] = i # [Suc i..<n]"
      by (simp add: upt_conv_Cons)
    show ?thesis
    proof (cases r)
      case (Inl e)
      with True p "1.prems" have "res = Inl e" "lg' = lg @ [(IsChecked (Nth cbs i), Inl e)]"
        by (simp_all add: areAllItemsChecked_loop.simps [of drv cbs n i])
      then show ?thesis
        by (simp add: upt)
    next
      case (Inr checked)
      show ?thesis
      proof (cases checked)
        case False
        with Inr True p "1.prems"
        have "res = Inr False" "lg' = lg @ [(IsChecked (Nth cbs i), Inr (VBool False))]"
          by (simp_all add: areAllItemsChecked_loop.simps [of drv cbs n i])
        then show ?thesis
          by (simp add: upt)
      next
        case checked: True
        let ?lg1 = "lg @ [(IsChecked (Nth cbs i), Inr (VBool True))]"
        have p': "locator_isChecked drv (Nth cbs i) (lg, w) = (Inr True, (?lg1, w1))"
          using p Inr checked by simp
        have "areAllItemsChecked_loop drv cbs n (i + 1) (?lg1, w1) = (res, (lg', w'))"
          using True p' "1.prems" by (simp add: areAllItemsChecked_loop.simps [of drv cbs n i])
        from "1.hyps" [OF True p' [symmetric] refl _ this]
        show ?thesis
          by (simp add: upt)
      qed
    qed
  qed
qed

lemma areAllItemsChecked_loop_extends:
  "areAllItemsChecked_loop drv cbs n i (lg, w) = (res, (lg', w')) \<Longrightarrow> \<exists>sfx. lg' = lg @ sfx"
proof (induction drv cbs n i "(lg, w)" arbitrary: lg w rule: areAllItemsChecked_loop.induct)
  case (1 drv cbs n i)
  show ?case
  proof (cases "i < n")
    case False
    with "1.prems" show ?thesis
      by (auto simp: areAllItemsChecked_loop.simps [of drv cbs n i])
  next
    case True
    obtain r w1 where op: "isChecked_op drv (Nth cbs i) w = (r, w1)"
      by (cases "isChecked_op drv (Nth cbs i) w")
    note p = isChecked_apply [OF op, of lg]
    show ?thesis
    proof (cases "r = Inr True")
      case False
      with True p "1.prems" have "lg' = lg @ [(IsChecked (Nth cbs i), map_sum id VBool r)]"
        by (cases r) (auto simp: areAllItemsChecked_loop.simps [of drv cbs n i])
      then show ?thesis by blast
    next
      case checked: True
      let ?lg1 = "lg @ [(IsChecked (Nth cbs i), Inr (VBool True))]"
      have p': "locator_isChecked drv (Nth cbs i) (lg, w) = (Inr True, (?lg1, w1))"
        using p checked by simp
      have "areAllItemsChecked_loop drv cbs n (i + 1) (?lg1, w1) = (res, (lg', w'))"
        using True p' "1.prems" by (simp add: areAllItemsChecked_loop.simps [of drv cbs n i])
      from "1.hyps" [OF True p' [symmetric] refl _ this]
      show ?thesis
        by auto
    qed
  qed
qed

lemma areAllItemsChecked_log_iff:
  assumes "areAllItemsChecked drv (lg, w) = (res, (lg', w'))"
  shows "((res = Inr True) =
            (\<exists>n. 0 < n \<and>
               lg' = lg @ (Count item_checkboxes, Inr (VNum n)) # map checked_report [0..<n]))
       \<and> (fst (count_op drv item_checkboxes w) = Inr 0 \<longrightarrow>
            res = Inr False \<and> lg' = lg @ [(Count item_checkboxes, Inr (VNum 0))])"
proof -
  obtain r w1 where op: "count_op drv item_checkboxes w = (r, w1)"
    by (cases "count_op drv item_checkboxes w")
  have unf: "areAllItemsChecked drv (lg, w) =
      (case r of
         Inl e \<Rightarrow> (Inl e, (lg @ [(Count item_checkboxes, Inl e)], w1))
       | Inr n \<Rightarrow> (if n = 0 then resolve False
                   else areAllItemsChecked_loop drv item_checkboxes n 0)
                    (lg @ [(Count item_checkboxes, Inr (VNum n))], w1))"
    unfolding areAllItemsChecked_def locator_count_def
    by (rule await_perform [where f = "count_op drv item_checkboxes", OF op])
  show ?thesis
  proof (cases r)
    case (Inl e)
    with unf assms op show ?thesis by auto
  next
    case (Inr n)
    show ?thesis
    proof (cases "n = 0")
      case True
      with Inr unf assms op show ?thesis
        by (auto simp: resolve_def)
    next
      case False
      let ?lg1 = "lg @ [(Count item_checkboxes, Inr (VNum n))]"
      from False Inr unf assms
      have loop: "areAllItemsChecked_loop drv item_checkboxes n 0 (?lg1, w1) = (res, (lg', w'))"
        by simp
      from areAllItemsChecked_loop_log [OF loop]
      have "(res = Inr True) =
              (lg' = lg @ (Count item_checkboxes, Inr (VNum n)) # map checked_report [0..<n])"
        by (simp add: checked_report_def [abs_def])
      moreover have "lg' = lg @ (Count item_checkboxes, Inr (VNum n')) # map checked_report [0..<n']
          \<Longrightarrow> n' = n" for n'
      proof -
        assume a: "lg' = lg @ (Count item_checkboxes, Inr (VNum n')) # map checked_report [0..<n']"
        from areAllItemsChecked_loop_extends [OF loop] obtain sfx where "lg' = ?lg1 @ sfx"
          by blast
        with a show "n' = n" by simp
      qed
      ultimately show ?thesis
        using False Inr op by auto
    qed
  qed
qed
lemma areAllItemsChecked_loop_done:
  "\<not> i < n \<Longrightarrow> areAllItemsChecked_loop drv cbs n i s = (Inr True, s)"
  by (simp add: areAllItemsChecked_loop.simps)

lemma areAllItemsChecked_loop_checked:
  "i < n \<Longrightarrow> isChecked_op drv (Nth cbs i) w = (Inr True, w1) \<Longrightarrow>
   areAllItemsChecked_loop drv cbs n i (lg, w) =
     areAllItemsChecked_loop drv cbs n (Suc i)
       (lg @ [(IsChecked (Nth cbs i), Inr (VBool True))], w1)"
  by (simp add: areAllItemsChecked_loop.simps [of drv cbs n i] isChecked_apply)

lemma areAllItemsChecked_loop_unchecked:
  "i < n \<Longrightarrow> isChecked_op drv (Nth cbs i) w = (Inr False, w1) \<Longrightarrow>
   areAllItemsChecked_loop drv cbs n i (lg, w) =
     (Inr False, (lg @ [(IsChecked (Nth cbs i), Inr (VBool False))], w1))"
  by (simp add: areAllItemsChecked_loop.simps [of drv cbs n i] isChecked_apply)

lemma areAllItemsChecked_loop_result:
  assumes reads: "\<forall>j<n. isChecked_op drv (Nth cbs j) (ws j) = (Inr (bs ! j), ws (Suc j))"
  shows "i \<le> n \<Longrightarrow>
         fst (areAllItemsChecked_loop drv cbs n i (lg, ws i)) = Inr (\<forall>j. i \<le> j \<and> j < n \<longrightarrow> bs ! j)"
proof (induction "n - i" arbitrary: i lg)
  case 0
  then have "\<not> i < n" by simp
  then show ?case
    by (auto simp: areAllItemsChecked_loop_done)
next
  case (Suc d)
  then have lt: "i < n" by simp
  with reads have r: "isChecked_op drv (Nth cbs i) (ws i) = (Inr (bs ! i), ws (Suc i))"
    by simp
  show ?case
  proof (cases "bs ! i")
    case False
    with lt r have "fst (areAllItemsChecked_loop drv cbs n i (lg, ws i)) = Inr False"
      by (simp add: areAllItemsChecked_loop_unchecked)
    moreover from lt False have "\<not> (\<forall>j. i \<le> j \<and> j < n \<longrightarrow> bs ! j)"
      by auto
    ultimately show ?thesis by simp
  next
    case True
    with lt r have step: "areAllItemsChecked_loop drv cbs n i (lg, ws i) =
        areAllItemsChecked_loop drv cbs n (Suc i)
          (lg @ [(IsChecked (Nth cbs i), Inr (VBool True))], ws (Suc i))"
      by (simp add: areAllItemsChecked_loop_checked)
    from Suc.hyps(2) lt have "d = n - Suc i" "Suc i \<le> n" by simp_all
    from Suc.hyps(1) [OF this]
    have ih: "fst (areAllItemsChecked_loop drv cbs n (Suc i)
                (lg @ [(IsChecked (Nth cbs i), Inr (VBool True))], ws (Suc i))) =
              Inr (\<forall>j. Suc i \<le> j \<and> j < n \<longrightarrow> bs ! j)" .
    have "(\<forall>j. Suc i \<le> j \<and> j < n \<longrightarrow> bs ! j) = (\<forall>j. i \<le> j \<and> j < n \<longrightarrow> bs ! j)"
      using True by (metis Suc_leI le_neq_implies_less Suc_leD)
    with step ih show ?thesis by simp
  qed
qed

text \<open>
  C9. \<open>areAllItemsChecked\<close> returns true exactly when the item list has at least one
  checkbox and every checkbox reports checked. Here the driver counts \<open>length bs\<close>
  checkboxes and checkbox \<open>i\<close>, asked in its turn, reports \<open>bs ! i\<close>; the worlds \<open>ws\<close>
  are those the driver passes through. The result is true when \<open>bs\<close> is not empty and
  holds only \<open>True\<close>, and false otherwise; in particular it is false when there is no
  checkbox. Moreover the result is true exactly when the calls made are the count, which
  is not zero, followed by one query of each checkbox, each answered with checked; and
  when the count is zero no checkbox is queried.
\<close>

theorem areAllItemsChecked_true_iff:
  assumes "count_op drv item_checkboxes w = (Inr (length bs), ws 0)"
    and "\<forall>i<length bs. isChecked_op drv (Nth item_checkboxes i) (ws i) = (Inr (bs ! i), ws (Suc i))"
  shows "fst (areAllItemsChecked drv (lg, w)) = Inr (bs \<noteq> [] \<and> (\<forall>b \<in> set bs. b))
       \<and> ((fst (areAllItemsChecked drv (lg, w)) = Inr True) =
            (\<exists>n. 0 < n \<and>
               fst (snd (areAllItemsChecked drv (lg, w))) =
                 lg @ (Count item_checkboxes, Inr (VNum n)) # map checked_report [0..<n]))
       \<and> (bs = [] \<longrightarrow>
            fst (snd (areAllItemsChecked drv (lg, w))) =
              lg @ [(Count item_checkboxes, Inr (VNum 0))])"
proof -
  let ?lg1 = "lg @ [(Count item_checkboxes, Inr (VNum (length bs)))]"
  have unf: "areAllItemsChecked drv (lg, w) =
      (if length bs = 0 then resolve False
       else areAllItemsChecked_loop drv item_checkboxes (length bs) 0) (?lg1, ws 0)"
    unfolding areAllItemsChecked_def locator_count_def
    by (simp add: await_def perform_def assms(1))
  have result: "fst (areAllItemsChecked drv (lg, w)) = Inr (bs \<noteq> [] \<and> (\<forall>b \<in> set bs. b))"
  proof (cases "bs = []")
    case True
    with unf show ?thesis by (simp add: resolve_def)
  next
    case False
    from areAllItemsChecked_loop_result [OF assms(2), of 0 ?lg1]
    have "fst (areAllItemsChecked_loop drv item_checkboxes (length bs) 0 (?lg1, ws 0)) =
          Inr (\<forall>j<length bs. bs ! j)"
      by simp
    moreover have "(\<forall>j<length bs. bs ! j) = (\<forall>b \<in> set bs. b)"
      by (simp add: all_set_conv_all_nth)
    ultimately show ?thesis
      using False unf by simp
  qed
  obtain res lg' w' where run: "areAllItemsChecked drv (lg, w) = (res, (lg', w'))"
    by (metis prod.exhaust)
  from areAllItemsChecked_log_iff [OF run] run assms(1)
  have "(fst (areAllItemsChecked drv (lg, w)) = Inr True) =
            (\<exists>n. 0 < n \<and>
               fst (snd (areAllItemsChecked drv (lg, w))) =
                 lg @ (Count item_checkboxes, Inr (VNum n)) # map checked_report [0..<n])"
    and "bs = [] \<longrightarrow>
            fst (snd (areAllItemsChecked drv (lg, w))) =
              lg @ [(Count item_checkboxes, Inr (VNum 0))]"
    by simp_all
  with result show ?thesis
    by simp
qed

theorem areAllItemsChecked_true_iff_witness:
  "count_op dom_driver item_checkboxes (empty_dom\<lparr>dom_checked := [True, True]\<rparr>) =
     (Inr (length [True, True]), empty_dom\<lparr>dom_checked := [True, True]\<rparr>)
   \<and> fst (areAllItemsChecked dom_driver ([], empty_dom\<lparr>dom_checked := [True, True]\<rparr>)) =
       Inr True
   \<and> fst (areAllItemsChecked dom_driver ([], empty_dom\<lparr>dom_checked := [True, False]\<rparr>)) =
       Inr False
   \<and> fst (areAllItemsChecked dom_driver ([], empty_dom)) = Inr False
   \<and> fst (snd (areAllItemsChecked dom_driver ([], empty_dom))) =
       [(Count item_checkboxes, Inr (VNum 0))]"
proof -
  have reads: "\<forall>i<length bs.
      isChecked_op dom_driver (Nth item_checkboxes i) (empty_dom\<lparr>dom_checked := bs\<rparr>) =
        (Inr (bs ! i), empty_dom\<lparr>dom_checked := bs\<rparr>)" for bs
    by (simp add: dom_driver_def)
  have cnt: "count_op dom_driver item_checkboxes (empty_dom\<lparr>dom_checked := bs\<rparr>) =
      (Inr (length bs), empty_dom\<lparr>dom_checked := bs\<rparr>)" for bs
    by (simp add: dom_driver_def)
  have e: "empty_dom\<lparr>dom_checked := []\<rparr> = empty_dom"
    by (simp add: empty_dom_def)
  from areAllItemsChecked_true_iff
         [of dom_driver _ "[True, True]" "\<lambda>i. empty_dom\<lparr>dom_checked := [True, True]\<rparr>" "[]",
          OF cnt reads]
       areAllItemsChecked_true_iff
         [of dom_driver _ "[True, False]" "\<lambda>i. empty_dom\<lparr>dom_checked := [True, False]\<rparr>" "[]",
          OF cnt reads]
       areAllItemsChecked_true_iff
         [of dom_driver _ "[]" "\<lambda>i. empty_dom\<lparr>dom_checked := []\<rparr>" "[]",
          OF cnt reads]
       cnt [of "[True, True]"]
  show ?thesis
    by (simp add: e)
qed

lemma getAttribute_apply:
  "getAttribute_op drv l a w = (r, w1) \<Longrightarrow>
   locator_getAttribute drv l a (lg, w) = (r, (lg @ [(GetAttribute l a, map_sum id VAttr r)], w1))"
  by (simp add: locator_getAttribute_def perform_apply)

lemma getActiveViewMode_loop_Cons:
  assumes "getAttribute_op drv l ''aria-selected'' w = (r, w1)"
  shows "getActiveViewMode_loop drv ((l, v) # options) (lg, w) =
           (case r of
              Inl e \<Rightarrow> (Inl e, (lg @ [selected_read l (Inl e)], w1))
            | Inr a \<Rightarrow>
                if a = Some ''true''
                then (Inr v, (lg @ [selected_read l (Inr (Some ''true''))], w1))
                else getActiveViewMode_loop drv options (lg @ [selected_read l (Inr a)], w1))"
  using getAttribute_apply [OF assms, of lg]
  by (cases r) (simp_all add: selected_read_def getActiveViewMode_loop.simps)

text \<open>
  C8. \<open>getActiveViewMode\<close> is a linear scan over the three view options, grid, list and
  card in this order. It reads the \<^verbatim>\<open>aria-selected\<close> attribute of each, stops at the
  first one that is \<^verbatim>\<open>'true'\<close> and returns its mode; when none of the three is
  \<^verbatim>\<open>'true'\<close> it returns the sentinel \<^verbatim>\<open>'unknown'\<close> and raises no error. It raises
  no error of its own at all: it returns one of the four values, unless a read of the
  driver fails, and then the failure is the driver's error, passed on unchanged.
\<close>

theorem getActiveViewMode_first_selected_or_unknown:
  "getActiveViewMode drv (lg, w) =
     (case getAttribute_op drv gridViewButton ''aria-selected'' w of
        (Inl e, w1) \<Rightarrow> (Inl e, (lg @ [selected_read gridViewButton (Inl e)], w1))
      | (Inr a1, w1) \<Rightarrow>
          if a1 = Some ''true''
          then (Inr ''grid'', (lg @ [selected_read gridViewButton (Inr a1)], w1))
          else
            (case getAttribute_op drv listViewButton ''aria-selected'' w1 of
               (Inl e, w2) \<Rightarrow>
                 (Inl e, (lg @ [selected_read gridViewButton (Inr a1),
                                selected_read listViewButton (Inl e)], w2))
             | (Inr a2, w2) \<Rightarrow>
                 if a2 = Some ''true''
                 then (Inr ''list'', (lg @ [selected_read gridViewButton (Inr a1),
                                            selected_read listViewButton (Inr a2)], w2))
                 else
                   (case getAttribute_op drv cardViewButton ''aria-selected'' w2 of
                      (Inl e, w3) \<Rightarrow>
                        (Inl e, (lg @ [selected_read gridViewButton (Inr a1),
                                       selected_read listViewButton (Inr a2),
                                       selected_read cardViewButton (Inl e)], w3))
                    | (Inr a3, w3) \<Rightarrow>
                        (Inr (if a3 = Some ''true'' then ''card'' else ''unknown''),
                         (lg @ [selected_read gridViewButton (Inr a1),
                                selected_read listViewButton (Inr a2),
                                selected_read cardViewButton (Inr a3)], w3)))))
   \<and> ((\<exists>mode \<in> set [''grid'', ''list'', ''card'', ''unknown''].
          fst (getActiveViewMode drv (lg, w)) = Inr mode)
       \<or> (\<exists>e l w0. l \<in> set [gridViewButton, listViewButton, cardViewButton]
            \<and> fst (getAttribute_op drv l ''aria-selected'' w0) = Inl e
            \<and> fst (getActiveViewMode drv (lg, w)) = Inl e))"
proof -
  obtain r1 w1 where g: "getAttribute_op drv gridViewButton ''aria-selected'' w = (r1, w1)"
    by (metis prod.exhaust)
  obtain r2 w2 where l: "getAttribute_op drv listViewButton ''aria-selected'' w1 = (r2, w2)"
    by (metis prod.exhaust)
  obtain r3 w3 where c: "getAttribute_op drv cardViewButton ''aria-selected'' w2 = (r3, w3)"
    by (metis prod.exhaust)
  note step1 = getActiveViewMode_loop_Cons
    [OF g, of "''grid''" "[(listViewButton, ''list''), (cardViewButton, ''card'')]" lg]
  have eq: "getActiveViewMode drv (lg, w) =
     (case r1 of
        Inl e \<Rightarrow> (Inl e, (lg @ [selected_read gridViewButton (Inl e)], w1))
      | Inr a1 \<Rightarrow>
          if a1 = Some ''true''
          then (Inr ''grid'', (lg @ [selected_read gridViewButton (Inr a1)], w1))
          else
            (case r2 of
               Inl e \<Rightarrow>
                 (Inl e, (lg @ [selected_read gridViewButton (Inr a1),
                                selected_read listViewButton (Inl e)], w2))
             | Inr a2 \<Rightarrow>
                 if a2 = Some ''true''
                 then (Inr ''list'', (lg @ [selected_read gridViewButton (Inr a1),
                                            selected_read listViewButton (Inr a2)], w2))
                 else
                   (case r3 of
                      Inl e \<Rightarrow>
                        (Inl e, (lg @ [selected_read gridViewButton (Inr a1),
                                       selected_read listViewButton (Inr a2),
                                       selected_read cardViewButton (Inl e)], w3))
                    | Inr a3 \<Rightarrow>
                        (Inr (if a3 = Some ''true'' then ''card'' else ''unknown''),
                         (lg @ [selected_read gridViewButton (Inr a1),
                                selected_read listViewButton (Inr a2),
                                selected_read cardViewButton (Inr a3)], w3)))))"
  proof (cases r1)
    case (Inl e)
    with step1 show ?thesis
      by (simp add: getActiveViewMode_def)
  next
    case r1: (Inr a1)
    show ?thesis
    proof (cases "a1 = Some ''true''")
      case True
      with r1 step1 show ?thesis
        by (simp add: getActiveViewMode_def)
    next
      case a1: False
      let ?lg1 = "lg @ [selected_read gridViewButton (Inr a1)]"
      note step2 = getActiveViewMode_loop_Cons
        [OF l, of "''list''" "[(cardViewButton, ''card'')]" ?lg1]
      show ?thesis
      proof (cases r2)
        case (Inl e)
        with r1 a1 step1 step2 show ?thesis
          by (simp add: getActiveViewMode_def)
      next
        case r2: (Inr a2)
        show ?thesis
        proof (cases "a2 = Some ''true''")
          case True
          with r1 a1 r2 step1 step2 show ?thesis
            by (simp add: getActiveViewMode_def)
        next
          case a2: False
          let ?lg2 = "?lg1 @ [selected_read listViewButton (Inr a2)]"
          note step3 = getActiveViewMode_loop_Cons [OF c, of "''card''" "[]" ?lg2]
          from r1 a1 r2 a2 step1 step2 step3 show ?thesis
            by (cases r3) (simp_all add: getActiveViewMode_def getActiveViewMode_loop.simps)
        qed
      qed
    qed
  qed
  have own: "(\<exists>mode \<in> set [''grid'', ''list'', ''card'', ''unknown''].
          fst (getActiveViewMode drv (lg, w)) = Inr mode)
       \<or> (\<exists>e l w0. l \<in> set [gridViewButton, listViewButton, cardViewButton]
            \<and> fst (getAttribute_op drv l ''aria-selected'' w0) = Inl e
            \<and> fst (getActiveViewMode drv (lg, w)) = Inl e)"
  proof (cases r1)
    case (Inl e)
    with eq g have "gridViewButton \<in> set [gridViewButton, listViewButton, cardViewButton]
        \<and> fst (getAttribute_op drv gridViewButton ''aria-selected'' w) = Inl e
        \<and> fst (getActiveViewMode drv (lg, w)) = Inl e"
      by simp
    then show ?thesis by (intro disjI2 exI)
  next
    case r1: (Inr a1)
    show ?thesis
    proof (cases "a1 = Some ''true''")
      case True
      with r1 eq have "fst (getActiveViewMode drv (lg, w)) = Inr ''grid''" by simp
      then show ?thesis by simp
    next
      case a1: False
      show ?thesis
      proof (cases r2)
        case (Inl e)
        with r1 a1 eq l
        have "listViewButton \<in> set [gridViewButton, listViewButton, cardViewButton]
            \<and> fst (getAttribute_op drv listViewButton ''aria-selected'' w1) = Inl e
            \<and> fst (getActiveViewMode drv (lg, w)) = Inl e"
          by simp
        then show ?thesis by (intro disjI2 exI)
      next
        case r2: (Inr a2)
        show ?thesis
        proof (cases "a2 = Some ''true''")
          case True
          with r1 a1 r2 eq have "fst (getActiveViewMode drv (lg, w)) = Inr ''list''" by simp
          then show ?thesis by simp
        next
          case a2: False
          show ?thesis
          proof (cases r3)
            case (Inl e)
            with r1 a1 r2 a2 eq c
            have "cardViewButton \<in> set [gridViewButton, listViewButton, cardViewButton]
                \<and> fst (getAttribute_op drv cardViewButton ''aria-selected'' w2) = Inl e
                \<and> fst (getActiveViewMode drv (lg, w)) = Inl e"
              by simp
            then show ?thesis by (intro disjI2 exI)
          next
            case (Inr a3)
            with r1 a1 r2 a2 eq
            have "fst (getActiveViewMode drv (lg, w)) =
                    Inr (if a3 = Some ''true'' then ''card'' else ''unknown'')"
              by simp
            then show ?thesis by simp
          qed
        qed
      qed
    qed
  qed
  from eq g l c have "getActiveViewMode drv (lg, w) =
     (case getAttribute_op drv gridViewButton ''aria-selected'' w of
        (Inl e, w1) \<Rightarrow> (Inl e, (lg @ [selected_read gridViewButton (Inl e)], w1))
      | (Inr a1, w1) \<Rightarrow>
          if a1 = Some ''true''
          then (Inr ''grid'', (lg @ [selected_read gridViewButton (Inr a1)], w1))
          else
            (case getAttribute_op drv listViewButton ''aria-selected'' w1 of
               (Inl e, w2) \<Rightarrow>
                 (Inl e, (lg @ [selected_read gridViewButton (Inr a1),
                                selected_read listViewButton (Inl e)], w2))
             | (Inr a2, w2) \<Rightarrow>
                 if a2 = Some ''true''
                 then (Inr ''list'', (lg @ [selected_read gridViewButton (Inr a1),
                                            selected_read listViewButton (Inr a2)], w2))
                 else
                   (case getAttribute_op drv cardViewButton ''aria-selected'' w2 of
                      (Inl e, w3) \<Rightarrow>
                        (Inl e, (lg @ [selected_read gridViewButton (Inr a1),
                                       selected_read listViewButton (Inr a2),
                                       selected_read cardViewButton (Inl e)], w3))
                    | (Inr a3, w3) \<Rightarrow>
                        (Inr (if a3 = Some ''true'' then ''card'' else ''unknown''),
                         (lg @ [selected_read gridViewButton (Inr a1),
                                selected_read listViewButton (Inr a2),
                                selected_read cardViewButton (Inr a3)], w3)))))"
    by (simp split: sum.splits)
  from this own show ?thesis
    by (rule conjI)
qed

theorem getActiveViewMode_first_selected_or_unknown_witness:
  "getActiveViewMode dom_driver
     ([], empty_dom\<lparr>dom_visible := [gridViewButton, listViewButton, cardViewButton],
                    dom_selected := [listViewButton]\<rparr>) =
   (Inr ''list'',
    ([selected_read gridViewButton (Inr (Some ''false'')),
      selected_read listViewButton (Inr (Some ''true''))],
     empty_dom\<lparr>dom_visible := [gridViewButton, listViewButton, cardViewButton],
                dom_selected := [listViewButton]\<rparr>))
   \<and> getActiveViewMode dom_driver
     ([], empty_dom\<lparr>dom_visible := [gridViewButton, listViewButton, cardViewButton]\<rparr>) =
   (Inr ''unknown'',
    ([selected_read gridViewButton (Inr (Some ''false'')),
      selected_read listViewButton (Inr (Some ''false'')),
      selected_read cardViewButton (Inr (Some ''false''))],
     empty_dom\<lparr>dom_visible := [gridViewButton, listViewButton, cardViewButton]\<rparr>))"
  using getActiveViewMode_first_selected_or_unknown
      [of dom_driver "[]"
          "empty_dom\<lparr>dom_visible := [gridViewButton, listViewButton, cardViewButton],
                     dom_selected := [listViewButton]\<rparr>"]
    getActiveViewMode_first_selected_or_unknown
      [of dom_driver "[]"
          "empty_dom\<lparr>dom_visible := [gridViewButton, listViewButton, cardViewButton]\<rparr>"]
  by (simp add: dom_driver_def empty_dom_def gridViewButton_def listViewButton_def
        cardViewButton_def)

subsection \<open>ContentPage: multi-file upload\<close>

lemma file_success_indicator_literals:
  "file_success_indicator (Suc 0) =
     Locator ''div:nth-child(1) > .horizontal > .file-status-icon > .success''"
  "file_success_indicator 1 =
     Locator ''div:nth-child(1) > .horizontal > .file-status-icon > .success''"
  "file_success_indicator 2 =
     Locator ''div:nth-child(2) > .horizontal > .file-status-icon > .success''"
  "file_success_indicator 3 =
     Locator ''div:nth-child(3) > .horizontal > .file-status-icon > .success''"
  by (simp_all add: file_success_indicator_def show_nat.simps)

lemma upload_dom_visible:
  "dom_visible (upload_dom (Suc 0)) = [addButton, uploadFilesButton, file_success_indicator 1]"
  "dom_visible (upload_dom 3) =
     [addButton, uploadFilesButton, file_success_indicator 1, file_success_indicator 2,
      file_success_indicator 3]"
proof -
  have "[1..<Suc (Suc 0)] = [1::nat]" "[1..<Suc 3] = [1, 2, 3::nat]"
    by (simp_all add: upt_rec numeral_eq_Suc)
  then show
    "dom_visible (upload_dom (Suc 0)) = [addButton, uploadFilesButton, file_success_indicator 1]"
    "dom_visible (upload_dom 3) =
       [addButton, uploadFilesButton, file_success_indicator 1, file_success_indicator 2,
        file_success_indicator 3]"
    unfolding upload_dom_def empty_dom_def by simp_all
qed

text \<open>
  C6 at three files and at one file. With three files, each of which shows its success
  indicator, \<open>uploadMultipleFiles\<close> returns after waiting for the indicators of files 1
  and 2: it never waits for the indicator of file 3. With one file, which shows its
  success indicator, it waits for the indicator of a second file and fails with the
  timeout of that wait.
\<close>

theorem uploadMultipleFiles_waits_for_two_indicators:
  "uploadMultipleFiles dom_driver [''a.jpg'', ''b.jpg'', ''c.jpg''] ([], upload_dom 3) =
     (Inr (),
      ([(WaitFor addButton Visible None, Inr VUnit),
        (Click addButton, Inr VUnit),
        (WaitFor uploadFilesButton Visible None, Inr VUnit),
        (Click uploadFilesButton, Inr VUnit),
        (SetInputFiles fileInput [''a.jpg'', ''b.jpg'', ''c.jpg''], Inr VUnit),
        (WaitFor (file_success_indicator 1) Visible None, Inr VUnit),
        (WaitFor (file_success_indicator 2) Visible None, Inr VUnit)],
       upload_dom 3))
   \<and> \<not> waited_for_visible
         (fst (snd (uploadMultipleFiles dom_driver [''a.jpg'', ''b.jpg'', ''c.jpg'']
            ([], upload_dom 3))))
         (file_success_indicator 3)
   \<and> uploadMultipleFiles dom_driver [''a.jpg''] ([], upload_dom 1) =
     (Inl (TimeoutError ''locator.waitFor: Timeout exceeded''),
      ([(WaitFor addButton Visible None, Inr VUnit),
        (Click addButton, Inr VUnit),
        (WaitFor uploadFilesButton Visible None, Inr VUnit),
        (Click uploadFilesButton, Inr VUnit),
        (SetInputFiles fileInput [''a.jpg''], Inr VUnit),
        (WaitFor (file_success_indicator 1) Visible None, Inr VUnit),
        (WaitFor (file_success_indicator 2) Visible None,
         Inl (TimeoutError ''locator.waitFor: Timeout exceeded''))],
       upload_dom 1))"
proof -
  note defs = uploadMultipleFiles_def click_def waitForVisible_def await_def
    locator_waitFor_def locator_click_def locator_setInputFiles_def perform_def
    unit_val_def dom_driver_def upload_dom_visible file_success_indicator_literals
    addButton_def uploadFilesButton_def
  have three: "uploadMultipleFiles dom_driver [''a.jpg'', ''b.jpg'', ''c.jpg''] ([], upload_dom 3) =
     (Inr (),
      ([(WaitFor addButton Visible None, Inr VUnit),
        (Click addButton, Inr VUnit),
        (WaitFor uploadFilesButton Visible None, Inr VUnit),
        (Click uploadFilesButton, Inr VUnit),
        (SetInputFiles fileInput [''a.jpg'', ''b.jpg'', ''c.jpg''], Inr VUnit),
        (WaitFor (file_success_indicator 1) Visible None, Inr VUnit),
        (WaitFor (file_success_indicator 2) Visible None, Inr VUnit)],
       upload_dom 3))"
    by (simp add: defs)
  have one: "uploadMultipleFiles dom_driver [''a.jpg''] ([], upload_dom 1) =
     (Inl (TimeoutError ''locator.waitFor: Timeout exceeded''),
      ([(WaitFor addButton Visible None, Inr VUnit),
        (Click addButton, Inr VUnit),
        (WaitFor uploadFilesButton Visible None, Inr VUnit),
        (Click uploadFilesButton, Inr VUnit),
        (SetInputFiles fileInput [''a.jpg''], Inr VUnit),
        (WaitFor (file_success_indicator 1) Visible None, Inr VUnit),
        (WaitFor (file_success_indicator 2) Visible None,
         Inl (TimeoutError ''locator.waitFor: Timeout exceeded''))],
       upload_dom 1))"
    by (simp add: defs)
  have "\<not> waited_for_visible
         (fst (snd (uploadMultipleFiles dom_driver [''a.jpg'', ''b.jpg'', ''c.jpg'']
            ([], upload_dom 3))))
         (file_success_indicator 3)"
    unfolding three
    by (simp add: waited_for_visible_def file_success_indicator_literals
          addButton_def uploadFilesButton_def)
  with three one show ?thesis
    by simp
qed

subsection \<open>BasePage: dialog handlers\<close>

text \<open>
  C3, as the code has it. \<open>acceptAlert\<close> and \<open>dismissAlert\<close> each add one more dialog
  listener to the page and never replace or remove one. After an accept handler and then a
  dismiss handler (or the other way round) are registered, both stay registered, and a
  dialog is passed to both, in the order of registration.
\<close>

theorem dialog_handlers_accumulate:
  "dialog_listeners (dismissAlert (acceptAlert p)) =
     dialog_listeners p @ [AcceptHandler, DismissHandler]
   \<and> dialog_listeners (acceptAlert (dismissAlert p)) =
     dialog_listeners p @ [DismissHandler, AcceptHandler]
   \<and> emit_dialog (dismissAlert (acceptAlert p)) = emit_dialog p @ [DialogAccept, DialogDismiss]
   \<and> emit_dialog (acceptAlert (dismissAlert p)) = emit_dialog p @ [DialogDismiss, DialogAccept]"
  by (simp add: acceptAlert_def dismissAlert_def page_on_dialog_def emit_dialog_def)

theorem dialog_handlers_accumulate_witness:
  "emit_dialog (dismissAlert (acceptAlert new_page)) = [DialogAccept, DialogDismiss]
   \<and> emit_dialog (acceptAlert (dismissAlert new_page)) = [DialogDismiss, DialogAccept]"
  using dialog_handlers_accumulate [of new_page]
  by (simp add: new_page_def emit_dialog_def)

text \<open>
  C3, the specification's wording: after an accept handler and then a dismiss handler are registered on
  a fresh page, only the dismiss handler applies to a dialog. In the code the dialog
  receives the call of the accept handler first, then that of the dismiss handler, and two
  handlers are registered.
\<close>

theorem dialog_last_handler_only_counterexample:
  "emit_dialog (dismissAlert (acceptAlert new_page)) \<noteq> [DialogDismiss]
   \<and> emit_dialog (dismissAlert (acceptAlert new_page)) = [DialogAccept, DialogDismiss]
   \<and> length (dialog_listeners (dismissAlert (acceptAlert new_page))) = 2"
  by (simp add: acceptAlert_def dismissAlert_def page_on_dialog_def emit_dialog_def new_page_def)

subsection \<open>Environment validation\<close>

lemma sublist_join:
  "key \<in> set xs \<Longrightarrow> sublist key (join sep xs)"
proof (induction sep xs rule: join.induct)
  case (1 sep)
  then show ?case by simp
next
  case (2 sep x)
  then show ?case by simp
next
  case (3 sep x y ys)
  show ?case
  proof (cases "key = x")
    case True
    have "sublist x ([] @ x @ (sep @ join sep (y # ys)))"
      by (rule sublist_appendI)
    with True show ?thesis by simp
  next
    case False
    with "3.prems" have "key \<in> set (y # ys)" by simp
    then have "sublist key (join sep (y # ys))" by (rule "3.IH")
    then obtain ps ss where "join sep (y # ys) = ps @ key @ ss"
      by (auto simp: sublist_def)
    then have "join sep (x # y # ys) = (x @ sep @ ps) @ key @ ss"
      by simp
    then show ?thesis
      unfolding sublist_def by blast
  qed
qed

lemma sublist_in_context:
  "sublist key m \<Longrightarrow> sublist key (pre @ m @ post)"
proof -
  assume "sublist key m"
  then obtain ps ss where "m = ps @ key @ ss"
    by (auto simp: sublist_def)
  then have "pre @ m @ post = (pre @ ps) @ key @ (ss @ post)"
    by simp
  then show ?thesis
    unfolding sublist_def by blast
qed

text \<open>
  C4. If one of the required variables \<^verbatim>\<open>BASE_URL\<close>, \<^verbatim>\<open>USER_EMAIL\<close>,
  \<^verbatim>\<open>USER_PASSWORD\<close> is absent, \<open>globalSetup\<close> throws before it does anything else: the
  rest of the setup is not run and the world is unchanged. The error message lists the
  missing variables, which are exactly the required ones that are unset or empty, and each
  missing name occurs in the message. \<open>validateEnvironment\<close> fails with the same list.
\<close>

theorem globalSetup_fails_fast:
  assumes "\<exists>key \<in> set required. env key = None"
  shows "globalSetup env rest s = (Inl (Error (globalSetup_message (missing_vars env))), s)
       \<and> missing_vars env \<noteq> []
       \<and> set (missing_vars env) = {key \<in> set required. falsy (env key)}
       \<and> (\<forall>key \<in> set (missing_vars env). sublist key (globalSetup_message (missing_vars env)))
       \<and> validateEnvironment env =
           Inl (Error (''Missing required environment variables: ''
                         @ join '', '' (missing_vars env)))"
proof -
  from assms obtain key where "key \<in> set required" "falsy (env key)"
    by (auto simp: falsy_def)
  then have "key \<in> set (missing_vars env)"
    by (simp add: missing_vars_def)
  then have ne: "missing_vars env \<noteq> []"
    by auto
  have msg: "sublist k (globalSetup_message (missing_vars env))"
    if "k \<in> set (missing_vars env)" for k
    unfolding globalSetup_message_def
    using sublist_in_context [OF sublist_join [OF that, of "'', ''"],
      of "''Global setup failed '' @ [CHR 0xE2, CHR 0x80, CHR 0x94]
            @ '' missing required environment variables: ''"
         "''.'' @ [CHR 0x0A] @ ''Copy .env.example to .env and fill in the values.''"]
    by simp
  have "set (missing_vars env) = {key \<in> set required. falsy (env key)}"
    by (auto simp: missing_vars_def)
  with ne msg show ?thesis
    by (simp add: globalSetup_def validateEnvironment_def Let_def)
qed

theorem globalSetup_fails_fast_witness:
  "(\<exists>key \<in> set required. only_base_url key = None)
   \<and> globalSetup only_base_url (resolve ()) ([], ()) =
       (Inl (Error (''Global setup failed '' @ [CHR 0xE2, CHR 0x80, CHR 0x94]
          @ '' missing required environment variables: USER_EMAIL, USER_PASSWORD.''
          @ [CHR 0x0A] @ ''Copy .env.example to .env and fill in the values.'')), ([], ()))
   \<and> validateEnvironment only_base_url =
       Inl (Error ''Missing required environment variables: USER_EMAIL, USER_PASSWORD'')"
proof -
  have h: "\<exists>key \<in> set required. only_base_url key = None"
    by (simp add: required_def only_base_url_def)
  have m: "missing_vars only_base_url = [''USER_EMAIL'', ''USER_PASSWORD'']"
    by (simp add: missing_vars_def required_def only_base_url_def falsy_def)
  from globalSetup_fails_fast [OF h, of "resolve ()" "([], ())"] h show ?thesis
    by (simp add: m globalSetup_message_def)
qed

subsection \<open>Loading test data\<close>

text \<open>
  C5, as the code has it. \<open>loadTestData\<close> returns whatever the parser yields for the text
  of the file, whatever its shape. It fails exactly when the file cannot be read or its
  text cannot be parsed, and then with an error whose message names the file and the
  cause: the text of the very error that the read, or else the parse, raised.
\<close>

theorem loadTestData_returns_parsed_value:
  "(readFileSync filePath = Inr contents \<and> JSON_parse contents = Inr v \<longrightarrow>
      loadTestData readFileSync JSON_parse filePath = Inr v)
   \<and> ((\<exists>e. loadTestData readFileSync JSON_parse filePath = Inl e) =
        ((\<exists>e. readFileSync filePath = Inl e)
         \<or> (\<exists>c e. readFileSync filePath = Inr c \<and> JSON_parse c = Inl e)))
   \<and> (\<forall>cause. readFileSync filePath = Inl cause \<longrightarrow>
        loadTestData readFileSync JSON_parse filePath =
          Inl (Error (''Error al cargar los datos de prueba desde '' @ filePath
                        @ '': '' @ js_error_text cause)))
   \<and> (\<forall>c cause. readFileSync filePath = Inr c \<and> JSON_parse c = Inl cause \<longrightarrow>
        loadTestData readFileSync JSON_parse filePath =
          Inl (Error (''Error al cargar los datos de prueba desde '' @ filePath
                        @ '': '' @ js_error_text cause)))"
  by (auto simp: loadTestData_def split: sum.splits)

theorem loadTestData_returns_parsed_value_witness:
  "stub_readFileSync ''src/data/contentData.json'' = Inr ''{}''
   \<and> stub_JSON_parse ''{}'' = Inr (JObject [])
   \<and> loadTestData stub_readFileSync stub_JSON_parse ''src/data/contentData.json'' =
       Inr (JObject [])
   \<and> stub_readFileSync ''missing.json'' = Inl (Error ''ENOENT: no such file or directory'')
   \<and> loadTestData stub_readFileSync stub_JSON_parse ''missing.json'' =
       Inl (Error (''Error al cargar los datos de prueba desde missing.json: ''
                     @ ''Error: ENOENT: no such file or directory''))"
proof -
  have r: "stub_readFileSync ''src/data/contentData.json'' = Inr ''{}''"
    and p: "stub_JSON_parse ''{}'' = Inr (JObject [])"
    and m: "stub_readFileSync ''missing.json'' = Inl (Error ''ENOENT: no such file or directory'')"
    by (simp_all add: stub_readFileSync_def stub_JSON_parse_def)
  from loadTestData_returns_parsed_value
    [of stub_readFileSync "''src/data/contentData.json''" "''{}''" stub_JSON_parse "JObject []"]
    loadTestData_returns_parsed_value
    [of stub_readFileSync "''missing.json''" "''{}''" stub_JSON_parse "JObject []"]
    r p m
  show ?thesis by simp
qed

text \<open>
  C5, the specification's wording: a record that does not match the \<^verbatim>\<open>ContentData\<close> shape makes
  the load fail. The file with the text \<^verbatim>\<open>{}\<close> holds an object with none of the six
  members, and the load returns it.
\<close>

theorem loadTestData_schema_counterexample:
  "loadTestData stub_readFileSync stub_JSON_parse ''src/data/contentData.json'' =
     Inr (JObject [])
   \<and> \<not> is_ContentData (JObject [])"
  by (simp add: loadTestData_def stub_readFileSync_def stub_JSON_parse_def
        is_ContentData_def json_member_def has_string_def)

end
